theory Spec2Isabelle
  imports Complex_Main
begin

section \<open>Numbers\<close>

text \<open>
  The components compute with JavaScript numbers. They are modelled as the reals: every
  operation is the exact one, so rounding, infinities and NaN are outside the model.
  A JavaScript division by zero gives an infinity or NaN; the properties below that
  depend on a quotient assume its divisor is not zero.
  The rotation angle only ever holds whole degrees and is an \<open>int\<close>; the JavaScript
  remainder \<open>%\<close> truncates towards zero and takes the sign of the dividend.
\<close>

definition js_rem :: "int \<Rightarrow> int \<Rightarrow> int" where
  "js_rem a b = sgn a * (\<bar>a\<bar> mod \<bar>b\<bar>)"

section \<open>The preview viewport (ImagePreview)\<close>

definition MIN_SCALE :: real where "MIN_SCALE = 1"
definition MAX_SCALE :: real where "MAX_SCALE = 8"
definition SCALE_STEP :: real where "SCALE_STEP = 0.5"

text \<open>
  An \<open>{x, y}\<close> object: the \<open>position\<close> state of the viewport and the
  \<open>lastMousePos\<close> ref of the cropper.
\<close>

record Point =
  pt_x :: real
  pt_y :: real

text \<open>The \<open>{x, y, posX, posY}\<close> object held by \<open>startPosRef\<close>.\<close>

record StartPos =
  start_x :: real
  start_y :: real
  start_posX :: real
  start_posY :: real

text \<open>One entry of \<open>e.touches\<close>: \<open>clientX\<close> and \<open>clientY\<close>.\<close>

type_synonym Touch = "real \<times> real"

text \<open>
  The props the handlers read (\<open>imageSrc\<close>, \<open>isLoading\<close>), the four pieces of
  component state and the three refs.
\<close>

record ImagePreview =
  imageSrc :: "string option"
  isLoading :: bool
  scale :: real
  position :: Point
  rotation :: int
  isDragging :: bool
  startPosRef :: StartPos
  pinchDistRef :: real
  pinchScaleRef :: real

text \<open>\<open>!imageSrc\<close>: true of \<open>null\<close> and of the empty string.\<close>

definition noImage :: "ImagePreview \<Rightarrow> bool" where
  "noImage s = (case imageSrc s of None \<Rightarrow> True | Some u \<Rightarrow> u = [])"

definition mount :: "string option \<Rightarrow> bool \<Rightarrow> ImagePreview" where
  "mount src loading =
     \<lparr> imageSrc = src, isLoading = loading, scale = 1,
       position = \<lparr> pt_x = 0, pt_y = 0 \<rparr>, rotation = 0, isDragging = False,
       startPosRef = \<lparr> start_x = 0, start_y = 0, start_posX = 0, start_posY = 0 \<rparr>,
       pinchDistRef = 0, pinchScaleRef = 1 \<rparr>"

definition resetTransform :: "ImagePreview \<Rightarrow> ImagePreview" where
  "resetTransform s =
     s\<lparr> scale := MIN_SCALE, position := \<lparr> pt_x = 0, pt_y = 0 \<rparr>, rotation := 0 \<rparr>"

definition handleWheel :: "real \<Rightarrow> ImagePreview \<Rightarrow> ImagePreview" where
  "handleWheel deltaY s =
     (if noImage s \<or> isLoading s then s
      else
        let delta = (if deltaY > 0 then - SCALE_STEP else SCALE_STEP);
            newScale = max MIN_SCALE (min MAX_SCALE (scale s + delta))
        in if newScale = MIN_SCALE then resetTransform s else s\<lparr> scale := newScale \<rparr>)"

definition handleMouseDown :: "real \<Rightarrow> real \<Rightarrow> ImagePreview \<Rightarrow> ImagePreview" where
  "handleMouseDown clientX clientY s =
     (if noImage s \<or> isLoading s \<or> scale s \<le> MIN_SCALE then s
      else s\<lparr> isDragging := True,
              startPosRef := \<lparr> start_x = clientX, start_y = clientY,
                               start_posX = pt_x (position s),
                               start_posY = pt_y (position s) \<rparr> \<rparr>)"

definition handleMouseMove :: "real \<Rightarrow> real \<Rightarrow> ImagePreview \<Rightarrow> ImagePreview" where
  "handleMouseMove clientX clientY s =
     (if \<not> isDragging s \<or> noImage s \<or> isLoading s then s
      else
        let dx = clientX - start_x (startPosRef s);
            dy = clientY - start_y (startPosRef s)
        in s\<lparr> position := \<lparr> pt_x = start_posX (startPosRef s) + dx,
                               pt_y = start_posY (startPosRef s) + dy \<rparr> \<rparr>)"

definition handleMouseUpOrLeave :: "ImagePreview \<Rightarrow> ImagePreview" where
  "handleMouseUpOrLeave s = s\<lparr> isDragging := False \<rparr>"

text \<open>\<open>getDist\<close> reads \<open>e.touches[0]\<close> and \<open>e.touches[1]\<close>; it is only called with two touches.\<close>

definition getDist :: "Touch \<Rightarrow> Touch \<Rightarrow> real" where
  "getDist t0 t1 =
     (let dx = fst t0 - fst t1; dy = snd t0 - snd t1 in sqrt (dx * dx + dy * dy))"

definition handleTouchStart :: "Touch list \<Rightarrow> ImagePreview \<Rightarrow> ImagePreview" where
  "handleTouchStart touches s =
     (if noImage s \<or> isLoading s then s
      else
        (case touches of
           [t0] \<Rightarrow>
             if scale s > MIN_SCALE
             then s\<lparr> isDragging := True,
                     startPosRef := \<lparr> start_x = fst t0, start_y = snd t0,
                                      start_posX = pt_x (position s),
                                      start_posY = pt_y (position s) \<rparr> \<rparr>
             else s
         | [t0, t1] \<Rightarrow>
             s\<lparr> pinchDistRef := getDist t0 t1, pinchScaleRef := scale s,
                isDragging := False \<rparr>
         | _ \<Rightarrow> s))"

definition handleTouchMove :: "Touch list \<Rightarrow> ImagePreview \<Rightarrow> ImagePreview" where
  "handleTouchMove touches s =
     (if noImage s \<or> isLoading s then s
      else
        (case touches of
           [t0] \<Rightarrow>
             if isDragging s
             then
               let dx = fst t0 - start_x (startPosRef s);
                   dy = snd t0 - start_y (startPosRef s)
               in s\<lparr> position := \<lparr> pt_x = start_posX (startPosRef s) + dx,
                                      pt_y = start_posY (startPosRef s) + dy \<rparr> \<rparr>
             else s
         | [t0, t1] \<Rightarrow>
             if pinchDistRef s > 0
             then
               let newDist = getDist t0 t1;
                   scaleChange = newDist / pinchDistRef s;
                   newScale = max MIN_SCALE (min MAX_SCALE (pinchScaleRef s * scaleChange))
               in if newScale = MIN_SCALE then resetTransform s else s\<lparr> scale := newScale \<rparr>
             else s
         | _ \<Rightarrow> s))"

definition handleTouchEnd :: "Touch list \<Rightarrow> ImagePreview \<Rightarrow> ImagePreview" where
  "handleTouchEnd touches s =
     (let s1 = s\<lparr> isDragging := False, pinchDistRef := 0 \<rparr>
      in case touches of
           [t0] \<Rightarrow>
             s1\<lparr> isDragging := True,
                 startPosRef := \<lparr> start_x = fst t0, start_y = snd t0,
                                  start_posX = pt_x (position s),
                                  start_posY = pt_y (position s) \<rparr> \<rparr>
         | _ \<Rightarrow> s1)"

definition zoomIn :: "ImagePreview \<Rightarrow> ImagePreview" where
  "zoomIn s = (let newScale = min MAX_SCALE (scale s + SCALE_STEP) in s\<lparr> scale := newScale \<rparr>)"

definition zoomOut :: "ImagePreview \<Rightarrow> ImagePreview" where
  "zoomOut s =
     (let newScale = max MIN_SCALE (scale s - SCALE_STEP)
      in if newScale = MIN_SCALE then resetTransform s else s\<lparr> scale := newScale \<rparr>)"

definition handleRotateClockwise :: "ImagePreview \<Rightarrow> ImagePreview" where
  "handleRotateClockwise s = s\<lparr> rotation := js_rem (rotation s + 90) 360 \<rparr>"

definition handleRotateCounterClockwise :: "ImagePreview \<Rightarrow> ImagePreview" where
  "handleRotateCounterClockwise s = s\<lparr> rotation := js_rem (rotation s - 90 + 360) 360 \<rparr>"

subsection \<open>Events\<close>

text \<open>
  What can happen to a mounted viewport: the eight events bound on the container, a
  click on one of the five control buttons, and a change of a prop by the parent.
\<close>

datatype PreviewEvent =
    Wheel real
  | MouseDown real real
  | MouseMove real real
  | MouseUp
  | MouseLeave
  | TouchStart "Touch list"
  | TouchMove "Touch list"
  | TouchEnd "Touch list"
  | ClickRotateCounterClockwise
  | ClickRotateClockwise
  | ClickZoomOut
  | ClickReset
  | ClickZoomIn
  | SetImageSrc "string option"
  | SetLoading bool

text \<open>The control buttons are rendered only with an image and not while loading.\<close>

definition controlsShown :: "ImagePreview \<Rightarrow> bool" where
  "controlsShown s = (\<not> noImage s \<and> \<not> isLoading s)"

text \<open>
  A click reaches its handler when the button is rendered and not \<open>disabled\<close>. A new
  \<open>imageSrc\<close> runs the effect that calls \<open>resetTransform\<close>.
\<close>

fun step :: "ImagePreview \<Rightarrow> PreviewEvent \<Rightarrow> ImagePreview" where
  "step s (Wheel deltaY) = handleWheel deltaY s"
| "step s (MouseDown cx cy) = handleMouseDown cx cy s"
| "step s (MouseMove cx cy) = handleMouseMove cx cy s"
| "step s MouseUp = handleMouseUpOrLeave s"
| "step s MouseLeave = handleMouseUpOrLeave s"
| "step s (TouchStart ts) = handleTouchStart ts s"
| "step s (TouchMove ts) = handleTouchMove ts s"
| "step s (TouchEnd ts) = handleTouchEnd ts s"
| "step s ClickRotateCounterClockwise =
     (if controlsShown s then handleRotateCounterClockwise s else s)"
| "step s ClickRotateClockwise =
     (if controlsShown s then handleRotateClockwise s else s)"
| "step s ClickZoomOut =
     (if controlsShown s \<and> \<not> scale s \<le> MIN_SCALE then zoomOut s else s)"
| "step s ClickReset =
     (if controlsShown s \<and>
         \<not> (scale s \<le> MIN_SCALE \<and> pt_x (position s) = 0 \<and> pt_y (position s) = 0 \<and>
            rotation s = 0)
      then resetTransform s else s)"
| "step s ClickZoomIn =
     (if controlsShown s \<and> \<not> scale s \<ge> MAX_SCALE then zoomIn s else s)"
| "step s (SetImageSrc src) =
     (if src = imageSrc s then s else resetTransform (s\<lparr> imageSrc := src \<rparr>))"
| "step s (SetLoading b) = s\<lparr> isLoading := b \<rparr>"

definition run :: "ImagePreview \<Rightarrow> PreviewEvent list \<Rightarrow> ImagePreview" where
  "run s es = foldl step s es"

text \<open>
  A viewport two steps zoomed in, panned, rotated once, with two fingers just put down
  100 pixels apart.
\<close>

definition pinched :: ImagePreview where
  "pinched = run (mount (Some ''a.png'') False)
     [ClickZoomIn, ClickZoomIn, MouseDown 0 0, MouseMove 10 20, MouseUp,
      ClickRotateClockwise, TouchStart [(0, 0), (100, 0)]]"

section \<open>The crop rectangle (ImageCropper)\<close>

text \<open>The \<open>Rect\<close> interface, in display pixels.\<close>

record Rect =
  rect_x :: real
  rect_y :: real
  rect_width :: real
  rect_height :: real

text \<open>The \<open>imageSize\<close> state: where the fitted image lies in its container.\<close>

record ImageSize =
  size_width :: real
  size_height :: real
  size_left :: real
  size_top :: real

text \<open>What \<open>onImageLoad\<close> reads from the container element and from the image element.\<close>

record Container =
  clientWidth :: real
  clientHeight :: real

record Image =
  naturalWidth :: real
  naturalHeight :: real

text \<open>
  The \<open>DragHandle\<close> union of string literals. The handlers test the literal itself with
  \<open>includes\<close> and \<open>startsWith\<close>, so each handle keeps its string.
\<close>

datatype DragHandle = H_n | H_s | H_e | H_w | H_ne | H_nw | H_se | H_sw | H_move

fun handle_string :: "DragHandle \<Rightarrow> string" where
  "handle_string H_n = ''n''"
| "handle_string H_s = ''s''"
| "handle_string H_e = ''e''"
| "handle_string H_w = ''w''"
| "handle_string H_ne = ''ne''"
| "handle_string H_nw = ''nw''"
| "handle_string H_se = ''se''"
| "handle_string H_sw = ''sw''"
| "handle_string H_move = ''move''"

text \<open>
  \<open>type?.includes(c)\<close> and \<open>type?.startsWith(c)\<close> for a one-character \<open>c\<close>; on
  \<open>null\<close> the optional chain gives \<open>undefined\<close>, which is falsy.
\<close>

definition includes_char :: "DragHandle option \<Rightarrow> char \<Rightarrow> bool" where
  "includes_char ty c = (case ty of None \<Rightarrow> False | Some h \<Rightarrow> c \<in> set (handle_string h))"

definition startsWith :: "DragHandle option \<Rightarrow> char \<Rightarrow> bool" where
  "startsWith ty c =
     (case ty of None \<Rightarrow> False
      | Some h \<Rightarrow> (case handle_string h of [] \<Rightarrow> False | d # _ \<Rightarrow> d = c))"

text \<open>
  The prop \<open>aspectRatioValue\<close>, the two pieces of state and the two refs
  (\<open>dragInfo\<close> is \<open>{active, type}\<close>).
\<close>

record ImageCropper =
  aspectRatioValue :: real
  imageSize :: ImageSize
  crop :: Rect
  lastMousePos :: Point
  dragInfo_active :: bool
  dragInfo_type :: "DragHandle option"

definition mountCropper :: "real \<Rightarrow> ImageCropper" where
  "mountCropper a =
     \<lparr> aspectRatioValue = a,
       imageSize = \<lparr> size_width = 0, size_height = 0, size_left = 0, size_top = 0 \<rparr>,
       crop = \<lparr> rect_x = 0, rect_y = 0, rect_width = 0, rect_height = 0 \<rparr>,
       lastMousePos = \<lparr> pt_x = 0, pt_y = 0 \<rparr>,
       dragInfo_active = False, dragInfo_type = None \<rparr>"

definition initCrop :: "ImageCropper \<Rightarrow> ImageCropper" where
  "initCrop s =
     (if size_width (imageSize s) = 0 \<or> size_height (imageSize s) = 0 then s
      else
        let imgWidth = size_width (imageSize s);
            imgHeight = size_height (imageSize s);
            imgRatio = imgWidth / imgHeight;
            (newWidth, newHeight) =
              (if aspectRatioValue s > imgRatio
               then (let newWidth = imgWidth * 0.8 in (newWidth, newWidth / aspectRatioValue s))
               else (let newHeight = imgHeight * 0.8 in (newHeight * aspectRatioValue s, newHeight)));
            newX = size_left (imageSize s) + (imgWidth - newWidth) / 2;
            newY = size_top (imageSize s) + (imgHeight - newHeight) / 2
        in s\<lparr> crop := \<lparr> rect_x = newX, rect_y = newY,
                          rect_width = newWidth, rect_height = newHeight \<rparr> \<rparr>)"

text \<open>The fitted box that \<open>onImageLoad\<close> stores in \<open>imageSize\<close>.\<close>

definition fittedBox :: "Container \<Rightarrow> Image \<Rightarrow> ImageSize" where
  "fittedBox container img =
     (let containerRatio = clientWidth container / clientHeight container;
          imgRatio = naturalWidth img / naturalHeight img
      in if imgRatio > containerRatio
         then
           let width = clientWidth container;
               height = width / imgRatio
           in \<lparr> size_width = width, size_height = height, size_left = 0,
                size_top = (clientHeight container - height) / 2 \<rparr>
         else
           let height = clientHeight container;
               width = height * imgRatio
           in \<lparr> size_width = width, size_height = height,
                size_left = (clientWidth container - width) / 2, size_top = 0 \<rparr>)"

text \<open>
  \<open>onImageLoad\<close> returns at once when either ref is empty. Storing a new \<open>imageSize\<close>
  object gives \<open>initCrop\<close> a new identity, so the effect that calls it runs again.
\<close>

definition onImageLoad :: "Container option \<Rightarrow> Image option \<Rightarrow> ImageCropper \<Rightarrow> ImageCropper" where
  "onImageLoad container img s =
     (case (container, img) of
        (Some c, Some i) \<Rightarrow> initCrop (s\<lparr> imageSize := fittedBox c i \<rparr>)
      | _ \<Rightarrow> s)"

definition handleMouseDown_crop :: "DragHandle \<Rightarrow> real \<Rightarrow> real \<Rightarrow> ImageCropper \<Rightarrow> ImageCropper" where
  "handleMouseDown_crop ty clientX clientY s =
     s\<lparr> dragInfo_active := True, dragInfo_type := Some ty,
        lastMousePos := \<lparr> pt_x = clientX, pt_y = clientY \<rparr> \<rparr>"

subsection \<open>The \<open>setCrop\<close> updater of \<open>handleMouseMove\<close>\<close>

text \<open>"Calculate new dimensions/positions": the four \<open>includes\<close> tests, in order.\<close>

definition applyEdges :: "DragHandle option \<Rightarrow> real \<Rightarrow> real \<Rightarrow> Rect \<Rightarrow> Rect" where
  "applyEdges ty dx dy prevCrop =
     (let n1 = (if includes_char ty CHR ''e''
                then prevCrop\<lparr> rect_width := rect_width prevCrop + dx \<rparr> else prevCrop);
          n2 = (if includes_char ty CHR ''w''
                then n1\<lparr> rect_x := rect_x n1 + dx, rect_width := rect_width n1 - dx \<rparr> else n1);
          n3 = (if includes_char ty CHR ''s''
                then n2\<lparr> rect_height := rect_height n2 + dy \<rparr> else n2);
          n4 = (if includes_char ty CHR ''n''
                then n3\<lparr> rect_y := rect_y n3 + dy, rect_height := rect_height n3 - dy \<rparr> else n3)
      in n4)"

text \<open>"Maintain aspect ratio".\<close>

definition maintainAspect :: "real \<Rightarrow> DragHandle option \<Rightarrow> Rect \<Rightarrow> Rect" where
  "maintainAspect a ty n =
     (if startsWith ty CHR ''n'' \<or> startsWith ty CHR ''s''
      then n\<lparr> rect_width := rect_height n * a \<rparr>
      else n\<lparr> rect_height := rect_width n / a \<rparr>)"

text \<open>The three corner lines that re-anchor against the previous rectangle.\<close>

definition anchorCorner :: "DragHandle option \<Rightarrow> Rect \<Rightarrow> Rect \<Rightarrow> Rect" where
  "anchorCorner ty prevCrop n =
     (let n1 = (if ty = Some H_nw
                then n\<lparr> rect_x := rect_x prevCrop + rect_width prevCrop - rect_width n,
                        rect_y := rect_y prevCrop + rect_height prevCrop - rect_height n \<rparr>
                else n);
          n2 = (if ty = Some H_ne
                then n1\<lparr> rect_y := rect_y prevCrop + rect_height prevCrop - rect_height n1 \<rparr>
                else n1);
          n3 = (if ty = Some H_sw
                then n2\<lparr> rect_x := rect_x prevCrop + rect_width prevCrop - rect_width n2 \<rparr>
                else n2)
      in n3)"

definition moveRect :: "DragHandle option \<Rightarrow> real \<Rightarrow> real \<Rightarrow> Rect \<Rightarrow> Rect" where
  "moveRect ty dx dy n =
     (if ty = Some H_move then n\<lparr> rect_x := rect_x n + dx, rect_y := rect_y n + dy \<rparr> else n)"

text \<open>"Clamp to image boundaries".\<close>

definition clampToImage :: "real \<Rightarrow> ImageSize \<Rightarrow> Rect \<Rightarrow> Rect" where
  "clampToImage a img n =
     (let n1 = n\<lparr> rect_x := max (size_left img) (rect_x n) \<rparr>;
          n2 = n1\<lparr> rect_y := max (size_top img) (rect_y n1) \<rparr>;
          n3 = (if rect_x n2 + rect_width n2 > size_left img + size_width img
                then
                  let w = size_left img + size_width img - rect_x n2
                  in n2\<lparr> rect_width := w, rect_height := w / a \<rparr>
                else n2);
          n4 = (if rect_y n3 + rect_height n3 > size_top img + size_height img
                then
                  let h = size_top img + size_height img - rect_y n3
                  in n3\<lparr> rect_height := h, rect_width := h * a \<rparr>
                else n3)
      in n4)"

text \<open>\<open>newCrop\<close> as it stands just before the size test.\<close>

definition candidate :: "real \<Rightarrow> ImageSize \<Rightarrow> DragHandle option \<Rightarrow> real \<Rightarrow> real \<Rightarrow> Rect \<Rightarrow> Rect" where
  "candidate a img ty dx dy prevCrop =
     clampToImage a img
       (moveRect ty dx dy
         (anchorCorner ty prevCrop
           (maintainAspect a ty
             (applyEdges ty dx dy prevCrop))))"

text \<open>The updater: the candidate, or \<open>prevCrop\<close> when the candidate is too small.\<close>

definition nextCrop :: "real \<Rightarrow> ImageSize \<Rightarrow> DragHandle option \<Rightarrow> real \<Rightarrow> real \<Rightarrow> Rect \<Rightarrow> Rect" where
  "nextCrop a img ty dx dy prevCrop =
     (let newCrop = candidate a img ty dx dy prevCrop
      in if rect_width newCrop < 20 \<or> rect_height newCrop < 20 then prevCrop else newCrop)"

definition handleMouseMove_crop :: "real \<Rightarrow> real \<Rightarrow> ImageCropper \<Rightarrow> ImageCropper" where
  "handleMouseMove_crop clientX clientY s =
     (if \<not> dragInfo_active s then s
      else
        let dx = clientX - pt_x (lastMousePos s);
            dy = clientY - pt_y (lastMousePos s)
        in s\<lparr> lastMousePos := \<lparr> pt_x = clientX, pt_y = clientY \<rparr>,
               crop := nextCrop (aspectRatioValue s) (imageSize s) (dragInfo_type s) dx dy
                         (crop s) \<rparr>)"

definition handleMouseUp :: "ImageCropper \<Rightarrow> ImageCropper" where
  "handleMouseUp s = s\<lparr> dragInfo_active := False, dragInfo_type := None \<rparr>"

subsection \<open>Saving\<close>

text \<open>
  The \<open>width\<close> and \<open>height\<close> of a canvas element are whole numbers (an
  \<open>unsigned long\<close>). An assigned number is cut towards zero and taken modulo
  \<open>2^32\<close>; a result above \<open>2^31 - 1\<close> is replaced by the default of the attribute,
  300 for the width and 150 for the height. Reading the property gives the stored whole
  number.
\<close>

definition toUnsignedLong :: "real \<Rightarrow> int" where
  "toUnsignedLong v = (if v < 0 then - \<lfloor>- v\<rfloor> else \<lfloor>v\<rfloor>) mod 4294967296"

definition setCanvasSize :: "int \<Rightarrow> real \<Rightarrow> int" where
  "setCanvasSize dflt v =
     (let n = toUnsignedLong v in if n > 2147483647 then dflt else n)"

text \<open>
  What \<open>handleSave\<close> asks of the canvas: the width and height the canvas holds after
  the two assignments, and the eight numbers passed to \<open>drawImage\<close> after the image.
  The destination size is \<open>canvas.width\<close> and \<open>canvas.height\<close> read back.
\<close>

record DrawImage =
  canvas_width :: int
  canvas_height :: int
  source_x :: real
  source_y :: real
  source_width :: real
  source_height :: real
  dest_x :: real
  dest_y :: real
  dest_width :: real
  dest_height :: real

text \<open>
  \<open>img\<close> is \<open>imageRef.current\<close>; \<open>hasContext\<close> says whether \<open>getContext('2d')\<close>
  gave a context. Neither missing, the data URL of the drawn canvas goes to \<open>onSave\<close>.
\<close>

definition handleSave :: "Image option \<Rightarrow> bool \<Rightarrow> ImageCropper \<Rightarrow> DrawImage option" where
  "handleSave img hasContext s =
     (case img of
        None \<Rightarrow> None
      | Some i \<Rightarrow>
          let scaleX = naturalWidth i / size_width (imageSize s);
              scaleY = naturalHeight i / size_height (imageSize s);
              cw = setCanvasSize 300
                     ((rect_width (crop s) -
                        (if dragInfo_type s = Some H_w \<or> dragInfo_type s = Some H_e then 2 else 0))
                      * scaleX);
              ch = setCanvasSize 150
                     ((rect_height (crop s) -
                        (if dragInfo_type s = Some H_n \<or> dragInfo_type s = Some H_s then 2 else 0))
                      * scaleY)
          in if \<not> hasContext then None
             else Some \<lparr> canvas_width = cw, canvas_height = ch,
                          source_x = (rect_x (crop s) - size_left (imageSize s)) * scaleX,
                          source_y = (rect_y (crop s) - size_top (imageSize s)) * scaleY,
                          source_width = rect_width (crop s) * scaleX,
                          source_height = rect_height (crop s) * scaleY,
                          dest_x = 0, dest_y = 0,
                          dest_width = real_of_int cw, dest_height = real_of_int ch \<rparr>)"

subsection \<open>Events of a crop session\<close>

datatype CropEvent =
    HandleDown DragHandle real real
  | PointerMove real real
  | PointerUp

fun crop_step :: "ImageCropper \<Rightarrow> CropEvent \<Rightarrow> ImageCropper" where
  "crop_step s (HandleDown ty cx cy) = handleMouseDown_crop ty cx cy s"
| "crop_step s (PointerMove cx cy) = handleMouseMove_crop cx cy s"
| "crop_step s PointerUp = handleMouseUp s"

definition crop_run :: "ImageCropper \<Rightarrow> CropEvent list \<Rightarrow> ImageCropper" where
  "crop_run s es = foldl crop_step s es"

text \<open>
  Two cropper states used as concrete inputs: a 1000 by 500 image loaded into a
  500 by 500 container with a square crop, and a 100 by 3000 strip loaded into a
  600 by 600 container.
\<close>

definition loaded :: ImageCropper where
  "loaded = onImageLoad (Some \<lparr> clientWidth = 500, clientHeight = 500 \<rparr>)
              (Some \<lparr> naturalWidth = 1000, naturalHeight = 500 \<rparr>) (mountCropper 1)"

definition strip :: ImageCropper where
  "strip = onImageLoad (Some \<lparr> clientWidth = 600, clientHeight = 600 \<rparr>)
             (Some \<lparr> naturalWidth = 100, naturalHeight = 3000 \<rparr>) (mountCropper 1)"


text \<open>The first of them with the east handle pressed.\<close>

definition squeezing :: ImageCropper where
  "squeezing = handleMouseDown_crop H_e 0 0 loaded"

section \<open>Properties of the viewport\<close>

subsection \<open>Scale bounds\<close>

lemma step_scale_bounds:
  assumes "1 \<le> scale s" "scale s \<le> 8"
  shows "1 \<le> scale (step s e) \<and> scale (step s e) \<le> 8"
proof (cases e)
  case (Wheel d)
  then show ?thesis using assms
    by (auto simp add: handleWheel_def Let_def resetTransform_def MIN_SCALE_def MAX_SCALE_def
        SCALE_STEP_def max_def min_def)
next
  case (TouchStart ts)
  then show ?thesis using assms
    by (simp add: handleTouchStart_def split: list.splits)
next
  case (TouchMove ts)
  then show ?thesis using assms
    by (auto simp add: handleTouchMove_def Let_def resetTransform_def MIN_SCALE_def
        MAX_SCALE_def max_def min_def split: list.splits)
next
  case (TouchEnd ts)
  then show ?thesis using assms
    by (simp add: handleTouchEnd_def Let_def split: list.splits)
qed (use assms in \<open>auto simp add: max_def min_def handleMouseDown_def handleMouseMove_def
      handleMouseUpOrLeave_def Let_def zoomIn_def zoomOut_def resetTransform_def
      handleRotateClockwise_def handleRotateCounterClockwise_def MIN_SCALE_def MAX_SCALE_def
      SCALE_STEP_def\<close>)

lemma run_scale_bounds:
  "1 \<le> scale s \<Longrightarrow> scale s \<le> 8 \<Longrightarrow> 1 \<le> scale (run s es) \<and> scale (run s es) \<le> 8"
  unfolding run_def
proof (induction es arbitrary: s)
  case Nil
  then show ?case by simp
next
  case (Cons e es)
  then show ?case using step_scale_bounds [of s e] by simp
qed

text \<open>
  C1. Whatever the props at mount and whatever events follow (wheel, buttons, mouse,
  touch and pinch, reset, prop changes), the scale lies in the closed interval from 1 to 8.
\<close>

theorem scale_always_bounded:
  "1 \<le> scale (run (mount src loading) es) \<and> scale (run (mount src loading) es) \<le> 8"
  by (rule run_scale_bounds) (simp_all add: mount_def)

theorem scale_always_bounded_witness:
  "1 \<le> scale (run (mount (Some ''a.png'') False)
                 [Wheel (-1), ClickZoomIn, TouchStart [(0, 0), (10, 0)],
                  TouchMove [(0, 0), (500, 0)], Wheel 3]) \<and>
   scale (run (mount (Some ''a.png'') False)
            [Wheel (-1), ClickZoomIn, TouchStart [(0, 0), (10, 0)],
             TouchMove [(0, 0), (500, 0)], Wheel 3]) \<le> 8"
  by (rule scale_always_bounded)

subsection \<open>Rotation\<close>

lemma js_rem_quarter_turns:
  "js_rem 90 360 = 90" "js_rem 180 360 = 180" "js_rem 270 360 = 270" "js_rem 360 360 = 0"
  "js_rem 450 360 = 90" "js_rem 540 360 = 180" "js_rem 630 360 = 270"
  by (simp_all add: js_rem_def)

lemma step_rotation:
  assumes "rotation s \<in> {0, 90, 180, 270}"
  shows "rotation (step s e) \<in> {0, 90, 180, 270}"
proof (cases e)
  case (Wheel d)
  then show ?thesis using assms
    by (simp add: handleWheel_def Let_def resetTransform_def)
next
  case (TouchStart ts)
  then show ?thesis using assms
    by (simp add: handleTouchStart_def split: list.splits)
next
  case (TouchMove ts)
  then show ?thesis using assms
    by (simp add: handleTouchMove_def Let_def resetTransform_def split: list.splits)
next
  case (TouchEnd ts)
  then show ?thesis using assms
    by (simp add: handleTouchEnd_def Let_def split: list.splits)
next
  case ClickRotateClockwise
  then show ?thesis using assms
    by (auto simp add: handleRotateClockwise_def js_rem_quarter_turns)
next
  case ClickRotateCounterClockwise
  then show ?thesis using assms
    by (auto simp add: handleRotateCounterClockwise_def js_rem_quarter_turns)
qed (use assms in \<open>simp_all add: handleMouseDown_def handleMouseMove_def handleMouseUpOrLeave_def
      Let_def zoomIn_def zoomOut_def resetTransform_def\<close>)

lemma run_rotation:
  "rotation s \<in> {0, 90, 180, 270} \<Longrightarrow> rotation (run s es) \<in> {0, 90, 180, 270}"
  unfolding run_def
proof (induction es arbitrary: s)
  case Nil
  then show ?case by simp
next
  case (Cons e es)
  then show ?case using step_rotation [of s e] by simp
qed

text \<open>
  C10. The rotation of every reachable viewport is one of 0, 90, 180, 270. From any state
  whose rotation is one of these, four clockwise turns give the rotation back, a
  counter-clockwise turn after a clockwise turn gives the whole state back, both turns
  stay within the four angles, and neither touches scale or translation.
\<close>

theorem rotation_quarter_turns:
  "rotation (run (mount src loading) es) \<in> {0, 90, 180, 270} \<and>
   (rotation s \<in> {0, 90, 180, 270} \<longrightarrow>
      rotation (handleRotateClockwise (handleRotateClockwise
                 (handleRotateClockwise (handleRotateClockwise s)))) = rotation s \<and>
      handleRotateCounterClockwise (handleRotateClockwise s) = s \<and>
      rotation (handleRotateClockwise s) \<in> {0, 90, 180, 270} \<and>
      rotation (handleRotateCounterClockwise s) \<in> {0, 90, 180, 270} \<and>
      scale (handleRotateClockwise s) = scale s \<and>
      position (handleRotateClockwise s) = position s \<and>
      scale (handleRotateCounterClockwise s) = scale s \<and>
      position (handleRotateCounterClockwise s) = position s)"
proof (intro conjI impI)
  show "rotation (run (mount src loading) es) \<in> {0, 90, 180, 270}"
    by (rule run_rotation) (simp add: mount_def)
next
  assume r: "rotation s \<in> {0, 90, 180, 270}"
  then show "rotation (handleRotateClockwise (handleRotateClockwise
                 (handleRotateClockwise (handleRotateClockwise s)))) = rotation s"
    by (auto simp add: handleRotateClockwise_def js_rem_quarter_turns)
  from r show "handleRotateCounterClockwise (handleRotateClockwise s) = s"
    by (auto simp add: handleRotateClockwise_def handleRotateCounterClockwise_def
        js_rem_quarter_turns)
  from r show "rotation (handleRotateClockwise s) \<in> {0, 90, 180, 270}"
    by (auto simp add: handleRotateClockwise_def js_rem_quarter_turns)
  from r show "rotation (handleRotateCounterClockwise s) \<in> {0, 90, 180, 270}"
    by (auto simp add: handleRotateCounterClockwise_def js_rem_quarter_turns)
qed (simp_all add: handleRotateClockwise_def handleRotateCounterClockwise_def)

theorem rotation_quarter_turns_witness:
  "rotation (run (mount (Some ''a.png'') False) [ClickRotateClockwise]) = 90 \<and>
   handleRotateCounterClockwise (handleRotateClockwise
     (run (mount (Some ''a.png'') False) [ClickRotateClockwise])) =
     run (mount (Some ''a.png'') False) [ClickRotateClockwise]"
proof -
  have r: "rotation (run (mount (Some ''a.png'') False) [ClickRotateClockwise]) = 90"
    by (simp add: run_def mount_def controlsShown_def noImage_def handleRotateClockwise_def
        js_rem_def)
  with rotation_quarter_turns [of "Some ''a.png''" False "[]"
      "run (mount (Some ''a.png'') False) [ClickRotateClockwise]"]
  show ?thesis by simp
qed

subsection \<open>Snapping back at the minimum scale\<close>

lemma handleWheel_snap:
  assumes "\<not> noImage s" "\<not> isLoading s"
  shows "let newScale = max 1 (min 8 (scale s + (if deltaY > 0 then - (1/2) else 1/2)))
       in if newScale = 1
          then scale (handleWheel deltaY s) = 1 \<and>
               position (handleWheel deltaY s) = \<lparr> pt_x = 0, pt_y = 0 \<rparr> \<and>
               rotation (handleWheel deltaY s) = 0
          else scale (handleWheel deltaY s) = newScale \<and>
               position (handleWheel deltaY s) = position s \<and>
               rotation (handleWheel deltaY s) = rotation s"
proof (cases "deltaY > 0")
  case True
  with assms show ?thesis
    by (simp add: handleWheel_def resetTransform_def Let_def
        MIN_SCALE_def MAX_SCALE_def SCALE_STEP_def)
next
  case False
  with assms show ?thesis
    by (simp add: handleWheel_def resetTransform_def Let_def
        MIN_SCALE_def MAX_SCALE_def SCALE_STEP_def)
qed

lemma zoomOut_snap:
  "let newScale = max 1 (scale s - 1/2)
    in if newScale = 1
       then scale (zoomOut s) = 1 \<and> position (zoomOut s) = \<lparr> pt_x = 0, pt_y = 0 \<rparr> \<and>
            rotation (zoomOut s) = 0
       else scale (zoomOut s) = newScale \<and> position (zoomOut s) = position s \<and>
            rotation (zoomOut s) = rotation s"
  by (simp add: zoomOut_def resetTransform_def Let_def MIN_SCALE_def SCALE_STEP_def)

lemma pinch_snap:
  assumes "\<not> noImage s" "\<not> isLoading s" "pinchDistRef s > 0"
  shows "let newScale = max 1 (min 8 (pinchScaleRef s * (getDist t0 t1 / pinchDistRef s)))
       in if newScale = 1
          then scale (handleTouchMove [t0, t1] s) = 1 \<and>
               position (handleTouchMove [t0, t1] s) = \<lparr> pt_x = 0, pt_y = 0 \<rparr> \<and>
               rotation (handleTouchMove [t0, t1] s) = 0
          else scale (handleTouchMove [t0, t1] s) = newScale \<and>
               position (handleTouchMove [t0, t1] s) = position s \<and>
               rotation (handleTouchMove [t0, t1] s) = rotation s"
proof -
  define newScale where
    "newScale = max 1 (min 8 (pinchScaleRef s * (getDist t0 t1 / pinchDistRef s)))"
  have move: "handleTouchMove [t0, t1] s =
      (if newScale = 1 then resetTransform s else s\<lparr> scale := newScale \<rparr>)"
    using assms
    by (simp add: handleTouchMove_def Let_def MIN_SCALE_def MAX_SCALE_def newScale_def)
  show ?thesis
    unfolding Let_def newScale_def [symmetric] move
    by (simp add: resetTransform_def MIN_SCALE_def)
qed

lemma getDist_horizontal: "getDist (a, c) (b, c) = \<bar>a - b\<bar>"
  by (simp add: getDist_def)

lemma pinched_eval:
  "pinched = \<lparr> imageSrc = Some ''a.png'', isLoading = False, scale = 2,
       position = \<lparr> pt_x = 10, pt_y = 20 \<rparr>, rotation = 90, isDragging = False,
       startPosRef = \<lparr> start_x = 0, start_y = 0, start_posX = 0, start_posY = 0 \<rparr>,
       pinchDistRef = 100, pinchScaleRef = 2 \<rparr>"
  by (simp add: pinched_def run_def mount_def controlsShown_def noImage_def zoomIn_def
      handleMouseDown_def handleMouseMove_def handleMouseUpOrLeave_def handleRotateClockwise_def
      handleTouchStart_def getDist_horizontal js_rem_def Let_def
      MIN_SCALE_def MAX_SCALE_def SCALE_STEP_def)

text \<open>
  C7. A wheel event (with an image bound and not loading), a zoom-out click and a
  two-contact pinch move (with a pinch distance recorded) each clamp the new scale into
  1..8. When the clamped scale is exactly 1 the update leaves scale 1, translation (0, 0)
  and rotation 0; otherwise it stores the new scale and keeps translation and rotation.
\<close>

theorem zoom_to_min_resets:
  "(\<not> noImage s \<and> \<not> isLoading s \<longrightarrow>
      (let newScale = max 1 (min 8 (scale s + (if deltaY > 0 then - (1/2) else 1/2)))
       in if newScale = 1
          then scale (handleWheel deltaY s) = 1 \<and>
               position (handleWheel deltaY s) = \<lparr> pt_x = 0, pt_y = 0 \<rparr> \<and>
               rotation (handleWheel deltaY s) = 0
          else scale (handleWheel deltaY s) = newScale \<and>
               position (handleWheel deltaY s) = position s \<and>
               rotation (handleWheel deltaY s) = rotation s)) \<and>
   (let newScale = max 1 (scale s - 1/2)
    in if newScale = 1
       then scale (zoomOut s) = 1 \<and> position (zoomOut s) = \<lparr> pt_x = 0, pt_y = 0 \<rparr> \<and>
            rotation (zoomOut s) = 0
       else scale (zoomOut s) = newScale \<and> position (zoomOut s) = position s \<and>
            rotation (zoomOut s) = rotation s) \<and>
   (\<not> noImage s \<and> \<not> isLoading s \<and> pinchDistRef s > 0 \<longrightarrow>
      (let newScale = max 1 (min 8 (pinchScaleRef s * (getDist t0 t1 / pinchDistRef s)))
       in if newScale = 1
          then scale (handleTouchMove [t0, t1] s) = 1 \<and>
               position (handleTouchMove [t0, t1] s) = \<lparr> pt_x = 0, pt_y = 0 \<rparr> \<and>
               rotation (handleTouchMove [t0, t1] s) = 0
          else scale (handleTouchMove [t0, t1] s) = newScale \<and>
               position (handleTouchMove [t0, t1] s) = position s \<and>
               rotation (handleTouchMove [t0, t1] s) = rotation s))"
  using handleWheel_snap [of s deltaY] zoomOut_snap [of s] pinch_snap [of s t0 t1]
  by blast

theorem zoom_to_min_resets_witness:
  "\<not> noImage pinched \<and> \<not> isLoading pinched \<and> pinchDistRef pinched > 0 \<and>
   scale (handleTouchMove [(0, 0), (150, 0)] pinched) = 3 \<and>
   position (handleTouchMove [(0, 0), (150, 0)] pinched) = \<lparr> pt_x = 10, pt_y = 20 \<rparr> \<and>
   rotation (handleTouchMove [(0, 0), (150, 0)] pinched) = 90 \<and>
   scale (handleTouchMove [(0, 0), (40, 0)] pinched) = 1 \<and>
   position (handleTouchMove [(0, 0), (40, 0)] pinched) = \<lparr> pt_x = 0, pt_y = 0 \<rparr> \<and>
   rotation (handleTouchMove [(0, 0), (40, 0)] pinched) = 0"
proof -
  have g: "getDist (0, 0) (150, 0) = 150" "getDist (0, 0) (40, 0) = 40"
    by (simp_all add: getDist_horizontal)
  have p: "\<not> noImage pinched" "\<not> isLoading pinched" "pinchDistRef pinched = 100"
    "pinchScaleRef pinched = 2" "position pinched = \<lparr> pt_x = 10, pt_y = 20 \<rparr>"
    "rotation pinched = 90" "scale pinched = 2"
    by (simp_all add: pinched_eval noImage_def)
  show ?thesis
    using zoom_to_min_resets [of pinched 1 "(0, 0)" "(150, 0)"]
      zoom_to_min_resets [of pinched 1 "(0, 0)" "(40, 0)"] p g
    by (simp add: Let_def)
qed

subsection \<open>Translation at the minimum scale\<close>

text \<open>
  \<open>handleMouseDown\<close> and \<open>handleTouchStart\<close> begin a drag only when the scale is
  above \<open>MIN_SCALE\<close>. \<open>handleTouchEnd\<close> begins one whenever a single touch remains,
  with no test of the scale.
\<close>

text \<open>
  C2. At the minimum scale the translation should be (0, 0), and a single-contact drag
  begun there should not move the image. With an image bound, two fingers go down at
  scale 1, one is lifted, and the remaining one moves by (30, 40): the scale is still
  \<open>MIN_SCALE\<close> and the translation is (30, 40).
\<close>

theorem touch_end_drag_at_min_scale:
  "scale (run (mount (Some ''a.png'') False)
            [TouchStart [(0, 0), (100, 0)], TouchEnd [(0, 0)], TouchMove [(30, 40)]])
     = MIN_SCALE \<and>
   position (run (mount (Some ''a.png'') False)
            [TouchStart [(0, 0), (100, 0)], TouchEnd [(0, 0)], TouchMove [(30, 40)]])
     = \<lparr> pt_x = 30, pt_y = 40 \<rparr>"
  by (simp add: run_def mount_def noImage_def handleTouchStart_def handleTouchEnd_def
      handleTouchMove_def getDist_horizontal Let_def MIN_SCALE_def)

text \<open>
  A drag that is still open when the scale snaps back to 1 has the same effect:
  \<open>resetTransform\<close> leaves \<open>isDragging\<close> as it is.
\<close>

lemma open_drag_survives_reset:
  "scale (run (mount (Some ''a.png'') False)
            [ClickZoomIn, MouseDown 0 0, Wheel 1, MouseMove 5 7]) = MIN_SCALE \<and>
   position (run (mount (Some ''a.png'') False)
            [ClickZoomIn, MouseDown 0 0, Wheel 1, MouseMove 5 7]) = \<lparr> pt_x = 5, pt_y = 7 \<rparr>"
  by (simp add: run_def mount_def noImage_def controlsShown_def zoomIn_def handleMouseDown_def
      handleWheel_def handleMouseMove_def resetTransform_def Let_def
      MIN_SCALE_def MAX_SCALE_def SCALE_STEP_def)

section \<open>Properties of the crop rectangle\<close>

subsection \<open>The candidate rectangle\<close>

lemma maintainAspect_ratio:
  "a \<noteq> 0 \<Longrightarrow> rect_width (maintainAspect a ty n) = rect_height (maintainAspect a ty n) * a"
  by (simp add: maintainAspect_def)

lemma anchorCorner_size:
  "rect_width (anchorCorner ty p n) = rect_width n"
  "rect_height (anchorCorner ty p n) = rect_height n"
  by (simp_all add: anchorCorner_def Let_def)

lemma moveRect_size:
  "rect_width (moveRect ty dx dy n) = rect_width n"
  "rect_height (moveRect ty dx dy n) = rect_height n"
  by (simp_all add: moveRect_def)

lemma clampToImage_ratio:
  assumes "a \<noteq> 0" "rect_width n = rect_height n * a"
  shows "rect_width (clampToImage a img n) = rect_height (clampToImage a img n) * a"
  using assms by (simp add: clampToImage_def Let_def)

lemma clampToImage_origin:
  "size_left img \<le> rect_x (clampToImage a img n)"
  "size_top img \<le> rect_y (clampToImage a img n)"
  by (simp_all add: clampToImage_def Let_def)

lemma clampToImage_bottom:
  "rect_y (clampToImage a img n) + rect_height (clampToImage a img n)
     \<le> size_top img + size_height img"
  by (simp add: clampToImage_def Let_def)

text \<open>
  The bottom clamp runs after the right clamp and recomputes the width. It only ever
  lowers the height, so with a positive ratio the width it writes is smaller than the one
  the right clamp left, and the right edge stays inside.
\<close>

lemma clampToImage_right:
  assumes "0 < a" "rect_width n = rect_height n * a"
  shows "rect_x (clampToImage a img n) + rect_width (clampToImage a img n)
     \<le> size_left img + size_width img"
proof -
  define x where "x = max (size_left img) (rect_x n)"
  define y where "y = max (size_top img) (rect_y n)"
  define right where "right = size_left img + size_width img"
  define bottom where "bottom = size_top img + size_height img"
  define w where "w = (if x + rect_width n > right then right - x else rect_width n)"
  define h where "h = (if x + rect_width n > right then (right - x) / a else rect_height n)"
  have xw: "x + w \<le> right" by (simp add: w_def)
  have wh: "w = h * a" using assms by (simp add: w_def h_def)
  have c: "clampToImage a img n =
      (if y + h > bottom
       then \<lparr> rect_x = x, rect_y = y, rect_width = (bottom - y) * a, rect_height = bottom - y \<rparr>
       else \<lparr> rect_x = x, rect_y = y, rect_width = w, rect_height = h \<rparr>)"
    by (simp add: clampToImage_def Let_def x_def y_def w_def h_def right_def bottom_def)
  show ?thesis
  proof (cases "y + h > bottom")
    case True
    then have "bottom - y < h" by simp
    with \<open>0 < a\<close> have "(bottom - y) * a < h * a" by simp
    with wh xw have "x + (bottom - y) * a \<le> right" by simp
    with True show ?thesis by (simp add: c right_def)
  next
    case False
    with xw show ?thesis by (simp add: c right_def)
  qed
qed

lemma candidate_ratio:
  "a \<noteq> 0 \<Longrightarrow>
   rect_width (candidate a img ty dx dy p) = rect_height (candidate a img ty dx dy p) * a"
  unfolding candidate_def
  by (intro clampToImage_ratio) (simp_all add: moveRect_size anchorCorner_size maintainAspect_ratio)

lemma candidate_inside:
  assumes "0 < a"
  shows "size_left img \<le> rect_x (candidate a img ty dx dy p)"
    and "size_top img \<le> rect_y (candidate a img ty dx dy p)"
    and "rect_x (candidate a img ty dx dy p) + rect_width (candidate a img ty dx dy p)
           \<le> size_left img + size_width img"
    and "rect_y (candidate a img ty dx dy p) + rect_height (candidate a img ty dx dy p)
           \<le> size_top img + size_height img"
proof -
  show "size_left img \<le> rect_x (candidate a img ty dx dy p)"
    unfolding candidate_def by (rule clampToImage_origin)
  show "size_top img \<le> rect_y (candidate a img ty dx dy p)"
    unfolding candidate_def by (rule clampToImage_origin)
  show "rect_y (candidate a img ty dx dy p) + rect_height (candidate a img ty dx dy p)
           \<le> size_top img + size_height img"
    unfolding candidate_def by (rule clampToImage_bottom)
  from assms show "rect_x (candidate a img ty dx dy p) + rect_width (candidate a img ty dx dy p)
           \<le> size_left img + size_width img"
    unfolding candidate_def
    by (intro clampToImage_right)
       (simp_all add: moveRect_size anchorCorner_size maintainAspect_ratio)
qed

lemma nextCrop_cases:
  "nextCrop a img ty dx dy p = p \<or>
   (nextCrop a img ty dx dy p = candidate a img ty dx dy p \<and>
    20 \<le> rect_width (candidate a img ty dx dy p) \<and>
    20 \<le> rect_height (candidate a img ty dx dy p))"
  by (simp add: nextCrop_def Let_def)

subsection \<open>Sessions\<close>

text \<open>No event of a session changes the aspect ratio or the fitted box.\<close>

lemma crop_step_frame:
  "aspectRatioValue (crop_step s e) = aspectRatioValue s"
  "imageSize (crop_step s e) = imageSize s"
  by (cases e; simp add: handleMouseDown_crop_def handleMouseMove_crop_def handleMouseUp_def Let_def)+

text \<open>An event keeps the rectangle or replaces it by a candidate of at least 20 by 20.\<close>

lemma crop_step_crop:
  "crop (crop_step s e) = crop s \<or>
   (\<exists>ty dx dy.
      crop (crop_step s e) = candidate (aspectRatioValue s) (imageSize s) ty dx dy (crop s) \<and>
      20 \<le> rect_width (crop (crop_step s e)) \<and> 20 \<le> rect_height (crop (crop_step s e)))"
proof (cases e)
  case (PointerMove cx cy)
  show ?thesis
  proof (cases "dragInfo_active s")
    case True
    with PointerMove show ?thesis
      using nextCrop_cases [of "aspectRatioValue s" "imageSize s" "dragInfo_type s"
          "cx - pt_x (lastMousePos s)" "cy - pt_y (lastMousePos s)" "crop s"]
      by (auto simp add: handleMouseMove_crop_def Let_def)
  next
    case False
    with PointerMove show ?thesis by (simp add: handleMouseMove_crop_def)
  qed
qed (simp_all add: handleMouseDown_crop_def handleMouseUp_def)

lemma crop_run_frame:
  "aspectRatioValue (crop_run s es) = aspectRatioValue s \<and> imageSize (crop_run s es) = imageSize s"
  unfolding crop_run_def
  by (induction es arbitrary: s) (simp_all add: crop_step_frame)

text \<open>
  A property of rectangles that the starting rectangle has, and that every candidate of
  at least 20 by 20 has, holds after every event of a session.
\<close>

lemma crop_run_induct:
  assumes start: "P (crop s)"
    and cand: "\<And>ty dx dy p.
        20 \<le> rect_width (candidate (aspectRatioValue s) (imageSize s) ty dx dy p) \<Longrightarrow>
        20 \<le> rect_height (candidate (aspectRatioValue s) (imageSize s) ty dx dy p) \<Longrightarrow>
        P (candidate (aspectRatioValue s) (imageSize s) ty dx dy p)"
  shows "P (crop (crop_run s es))"
proof (induction es rule: rev_induct)
  case Nil
  from start show ?case by (simp add: crop_run_def)
next
  case (snoc e es)
  let ?t = "crop_run s es"
  have run: "crop_run s (es @ [e]) = crop_step ?t e" by (simp add: crop_run_def)
  have fr: "aspectRatioValue ?t = aspectRatioValue s" "imageSize ?t = imageSize s"
    using crop_run_frame [of s es] by simp_all
  from crop_step_crop [of ?t e] show ?case
  proof
    assume "crop (crop_step ?t e) = crop ?t"
    with snoc run show ?thesis by simp
  next
    assume "\<exists>ty dx dy.
      crop (crop_step ?t e) = candidate (aspectRatioValue ?t) (imageSize ?t) ty dx dy (crop ?t) \<and>
      20 \<le> rect_width (crop (crop_step ?t e)) \<and> 20 \<le> rect_height (crop (crop_step ?t e))"
    then obtain ty dx dy where
      c: "crop (crop_step ?t e) = candidate (aspectRatioValue s) (imageSize s) ty dx dy (crop ?t)"
      and w: "20 \<le> rect_width (crop (crop_step ?t e))"
      and h: "20 \<le> rect_height (crop (crop_step ?t e))"
      using fr by auto
    from cand [of ty dx dy "crop ?t"] w h show ?thesis
      unfolding run c by simp
  qed
qed

subsection \<open>The initial rectangle\<close>

lemma initCrop_frame:
  "aspectRatioValue (initCrop s) = aspectRatioValue s" "imageSize (initCrop s) = imageSize s"
  by (simp_all add: initCrop_def Let_def)

lemma initCrop_ratio:
  assumes "aspectRatioValue s \<noteq> 0" "size_width (imageSize s) \<noteq> 0"
    "size_height (imageSize s) \<noteq> 0"
  shows "rect_width (crop (initCrop s)) = rect_height (crop (initCrop s)) * aspectRatioValue s"
    and "rect_height (crop (initCrop s)) \<noteq> 0"
  using assms by (simp_all add: initCrop_def Let_def)

lemma initCrop_size:
  assumes a: "0 < aspectRatioValue s" and w: "0 < size_width (imageSize s)"
    and h: "0 < size_height (imageSize s)"
  shows "rect_width (crop (initCrop s)) \<le> size_width (imageSize s)"
    and "rect_height (crop (initCrop s)) \<le> size_height (imageSize s)"
proof -
  define A where "A = aspectRatioValue s"
  define W where "W = size_width (imageSize s)"
  define H where "H = size_height (imageSize s)"
  have pos: "0 < A" "0 < W" "0 < H" using a w h by (simp_all add: A_def W_def H_def)
  have cw: "rect_width (crop (initCrop s)) = (if A > W / H then W * 0.8 else (H * 0.8) * A)"
    and ch: "rect_height (crop (initCrop s)) = (if A > W / H then (W * 0.8) / A else H * 0.8)"
    using w h by (simp_all add: initCrop_def Let_def A_def W_def H_def)
  show "rect_width (crop (initCrop s)) \<le> size_width (imageSize s)"
  proof (cases "A > W / H")
    case True
    with pos show ?thesis by (simp add: cw W_def [symmetric])
  next
    case False
    with pos have "A * H \<le> W" by (simp add: pos_le_divide_eq not_less)
    with pos False show ?thesis by (simp add: cw W_def [symmetric] mult.commute)
  qed
  show "rect_height (crop (initCrop s)) \<le> size_height (imageSize s)"
  proof (cases "A > W / H")
    case True
    with pos have "W < A * H" by (simp add: pos_divide_less_eq)
    with pos have "W / A < H" by (simp add: pos_divide_less_eq mult.commute)
    with pos True show ?thesis by (simp add: ch H_def [symmetric])
  next
    case False
    with pos show ?thesis by (simp add: ch H_def [symmetric])
  qed
qed

lemma initCrop_centred:
  assumes "size_width (imageSize s) \<noteq> 0" "size_height (imageSize s) \<noteq> 0"
  shows "rect_x (crop (initCrop s)) =
           size_left (imageSize s) + (size_width (imageSize s) - rect_width (crop (initCrop s))) / 2"
    and "rect_y (crop (initCrop s)) =
           size_top (imageSize s) + (size_height (imageSize s) - rect_height (crop (initCrop s))) / 2"
  using assms by (simp_all add: initCrop_def Let_def)

lemma initCrop_inside:
  assumes a: "0 < aspectRatioValue s" and w: "0 < size_width (imageSize s)"
    and h: "0 < size_height (imageSize s)"
  shows "size_left (imageSize s) \<le> rect_x (crop (initCrop s)) \<and>
         size_top (imageSize s) \<le> rect_y (crop (initCrop s)) \<and>
         rect_x (crop (initCrop s)) + rect_width (crop (initCrop s))
           \<le> size_left (imageSize s) + size_width (imageSize s) \<and>
         rect_y (crop (initCrop s)) + rect_height (crop (initCrop s))
           \<le> size_top (imageSize s) + size_height (imageSize s)"
proof -
  have c: "rect_x (crop (initCrop s)) =
           size_left (imageSize s) + (size_width (imageSize s) - rect_width (crop (initCrop s))) / 2"
    "rect_y (crop (initCrop s)) =
           size_top (imageSize s) + (size_height (imageSize s) - rect_height (crop (initCrop s))) / 2"
    using w h by (simp_all add: initCrop_centred)
  from initCrop_size [OF a w h] show ?thesis
    unfolding c by (simp add: field_simps)
qed

text \<open>The two concrete cropper states, evaluated.\<close>

lemma loaded_eval:
  "loaded = \<lparr> aspectRatioValue = 1,
       imageSize = \<lparr> size_width = 500, size_height = 250, size_left = 0, size_top = 125 \<rparr>,
       crop = \<lparr> rect_x = 150, rect_y = 150, rect_width = 200, rect_height = 200 \<rparr>,
       lastMousePos = \<lparr> pt_x = 0, pt_y = 0 \<rparr>,
       dragInfo_active = False, dragInfo_type = None \<rparr>"
  by (simp add: loaded_def onImageLoad_def fittedBox_def initCrop_def mountCropper_def Let_def)

lemma strip_eval:
  "strip = \<lparr> aspectRatioValue = 1,
       imageSize = \<lparr> size_width = 20, size_height = 600, size_left = 290, size_top = 0 \<rparr>,
       crop = \<lparr> rect_x = 292, rect_y = 292, rect_width = 16, rect_height = 16 \<rparr>,
       lastMousePos = \<lparr> pt_x = 0, pt_y = 0 \<rparr>,
       dragInfo_active = False, dragInfo_type = None \<rparr>"
  by (simp add: strip_def onImageLoad_def fittedBox_def initCrop_def mountCropper_def Let_def)

lemma initCrop_loaded: "initCrop loaded = loaded"
  by (simp add: loaded_eval initCrop_def Let_def)

subsection \<open>Aspect ratio\<close>

text \<open>
  C3. With a nonzero aspect ratio and a fitted box that \<open>initCrop\<close> accepts (width and
  height not 0), the rectangle that \<open>initCrop\<close> sets and every rectangle after any
  sequence of handle-drag events has width / height equal to \<open>aspectRatioValue\<close>
  (exactly, over the reals).
\<close>

theorem aspect_ratio_kept:
  assumes "aspectRatioValue s \<noteq> 0" "size_width (imageSize s) \<noteq> 0"
    "size_height (imageSize s) \<noteq> 0"
  shows "rect_width (crop (crop_run (initCrop s) es)) / rect_height (crop (crop_run (initCrop s) es))
           = aspectRatioValue s"
proof -
  let ?P = "\<lambda>r. rect_width r = rect_height r * aspectRatioValue s \<and> rect_height r \<noteq> 0"
  have "?P (crop (crop_run (initCrop s) es))"
  proof (rule crop_run_induct)
    show "?P (crop (initCrop s))" using initCrop_ratio [OF assms] by simp
  next
    fix ty dx dy p
    assume "20 \<le> rect_height (candidate (aspectRatioValue (initCrop s)) (imageSize (initCrop s)) ty dx dy p)"
    then show "?P (candidate (aspectRatioValue (initCrop s)) (imageSize (initCrop s)) ty dx dy p)"
      using assms(1) candidate_ratio [of "aspectRatioValue s" "imageSize s" ty dx dy p]
      by (simp add: initCrop_frame)
  qed
  then show ?thesis by simp
qed

theorem aspect_ratio_kept_witness:
  "aspectRatioValue loaded \<noteq> 0 \<and> size_width (imageSize loaded) \<noteq> 0 \<and>
   size_height (imageSize loaded) \<noteq> 0 \<and>
   rect_width (crop (crop_run (initCrop loaded)
       [HandleDown H_se 0 0, PointerMove 30 10, PointerMove 200 0, PointerUp])) /
   rect_height (crop (crop_run (initCrop loaded)
       [HandleDown H_se 0 0, PointerMove 30 10, PointerMove 200 0, PointerUp])) = 1"
proof -
  have h: "aspectRatioValue loaded \<noteq> 0" "size_width (imageSize loaded) \<noteq> 0"
    "size_height (imageSize loaded) \<noteq> 0"
    by (simp_all add: loaded_eval)
  have a: "aspectRatioValue loaded = 1" by (simp add: loaded_eval)
  from aspect_ratio_kept [OF h, of "[HandleDown H_se 0 0, PointerMove 30 10, PointerMove 200 0, PointerUp]"] h
  show ?thesis by (simp add: a)
qed

subsection \<open>Containment\<close>

text \<open>
  C4. With a positive aspect ratio and a fitted box of positive width and height, the
  rectangle that \<open>initCrop\<close> sets and every rectangle after any sequence of handle-drag
  events lies within the fitted box on all four sides.
\<close>

theorem crop_stays_inside:
  assumes "0 < aspectRatioValue s" "0 < size_width (imageSize s)" "0 < size_height (imageSize s)"
  shows "size_left (imageSize s) \<le> rect_x (crop (crop_run (initCrop s) es)) \<and>
         size_top (imageSize s) \<le> rect_y (crop (crop_run (initCrop s) es)) \<and>
         rect_x (crop (crop_run (initCrop s) es)) + rect_width (crop (crop_run (initCrop s) es))
           \<le> size_left (imageSize s) + size_width (imageSize s) \<and>
         rect_y (crop (crop_run (initCrop s) es)) + rect_height (crop (crop_run (initCrop s) es))
           \<le> size_top (imageSize s) + size_height (imageSize s)"
proof -
  let ?P = "\<lambda>r. size_left (imageSize s) \<le> rect_x r \<and> size_top (imageSize s) \<le> rect_y r \<and>
      rect_x r + rect_width r \<le> size_left (imageSize s) + size_width (imageSize s) \<and>
      rect_y r + rect_height r \<le> size_top (imageSize s) + size_height (imageSize s)"
  have "?P (crop (crop_run (initCrop s) es))"
  proof (rule crop_run_induct)
    show "?P (crop (initCrop s))" using initCrop_inside [OF assms] by simp
  next
    fix ty dx dy p
    show "?P (candidate (aspectRatioValue (initCrop s)) (imageSize (initCrop s)) ty dx dy p)"
      using candidate_inside [OF assms(1), of "imageSize s" ty dx dy p]
      by (simp add: initCrop_frame)
  qed
  then show ?thesis .
qed

theorem crop_stays_inside_witness:
  "0 < aspectRatioValue loaded \<and> 0 < size_width (imageSize loaded) \<and>
   0 < size_height (imageSize loaded) \<and>
   0 \<le> rect_x (crop (crop_run (initCrop loaded)
       [HandleDown H_nw 0 0, PointerMove (-200) (-200), PointerUp])) \<and>
   125 \<le> rect_y (crop (crop_run (initCrop loaded)
       [HandleDown H_nw 0 0, PointerMove (-200) (-200), PointerUp])) \<and>
   rect_x (crop (crop_run (initCrop loaded)
       [HandleDown H_nw 0 0, PointerMove (-200) (-200), PointerUp])) +
   rect_width (crop (crop_run (initCrop loaded)
       [HandleDown H_nw 0 0, PointerMove (-200) (-200), PointerUp])) \<le> 500 \<and>
   rect_y (crop (crop_run (initCrop loaded)
       [HandleDown H_nw 0 0, PointerMove (-200) (-200), PointerUp])) +
   rect_height (crop (crop_run (initCrop loaded)
       [HandleDown H_nw 0 0, PointerMove (-200) (-200), PointerUp])) \<le> 375"
proof -
  have h: "0 < aspectRatioValue loaded" "0 < size_width (imageSize loaded)"
    "0 < size_height (imageSize loaded)"
    by (simp_all add: loaded_eval)
  have b: "size_left (imageSize loaded) = 0" "size_top (imageSize loaded) = 125"
    "size_width (imageSize loaded) = 500" "size_height (imageSize loaded) = 250"
    by (simp_all add: loaded_eval)
  from crop_stays_inside [OF h, of "[HandleDown H_nw 0 0, PointerMove (-200) (-200), PointerUp]"] h
  show ?thesis by (simp add: b)
qed

subsection \<open>Evaluating the string tests\<close>

lemma includes_char_simps:
  "includes_char (Some H_e) CHR ''e''" "\<not> includes_char (Some H_e) CHR ''w''"
  "\<not> includes_char (Some H_e) CHR ''s''" "\<not> includes_char (Some H_e) CHR ''n''"
  "includes_char (Some H_move) CHR ''e''" "\<not> includes_char (Some H_move) CHR ''w''"
  "\<not> includes_char (Some H_move) CHR ''s''" "\<not> includes_char (Some H_move) CHR ''n''"
  by (simp_all add: includes_char_def)

lemma startsWith_simps:
  "\<not> startsWith (Some H_e) CHR ''n''" "\<not> startsWith (Some H_e) CHR ''s''"
  "\<not> startsWith (Some H_move) CHR ''n''" "\<not> startsWith (Some H_move) CHR ''s''"
  by (simp_all add: startsWith_def)

subsection \<open>Minimum size\<close>

text \<open>
  The size test sits in the updater of \<open>handleMouseMove\<close> only; \<open>initCrop\<close> takes 0.8
  of the limiting side of the fitted box whatever that comes to.
\<close>

text \<open>
  C5, as stated, at a concrete input. A 100 by 3000 image in a 600 by 600 container is
  fitted 20 pixels wide, and the settled rectangle before any drag is 16 by 16: not at
  least 20 by 20.
\<close>

theorem strip_initial_crop_too_small:
  "\<not> (20 \<le> rect_width (crop (crop_run strip [])) \<and> 20 \<le> rect_height (crop (crop_run strip [])))"
  by (simp add: crop_run_def strip_eval)

text \<open>
  C5, amended. Every event of a session leaves the rectangle as it was or commits one of
  width and height at least 20; so a session that starts from a rectangle of at least
  20 by 20, the one from \<open>initCrop\<close> included when it is that large, never holds a
  smaller one. A pointer move whose clamped candidate is narrower or lower than 20 leaves
  the rectangle exactly as it was.
\<close>

theorem minimum_size_enforced:
  "(crop (crop_step s e) = crop s \<or>
      20 \<le> rect_width (crop (crop_step s e)) \<and> 20 \<le> rect_height (crop (crop_step s e))) \<and>
   (20 \<le> rect_width (crop s) \<and> 20 \<le> rect_height (crop s) \<longrightarrow>
      20 \<le> rect_width (crop (crop_run s es)) \<and> 20 \<le> rect_height (crop (crop_run s es))) \<and>
   (rect_width (candidate (aspectRatioValue s) (imageSize s) (dragInfo_type s)
        (cx - pt_x (lastMousePos s)) (cy - pt_y (lastMousePos s)) (crop s)) < 20 \<or>
    rect_height (candidate (aspectRatioValue s) (imageSize s) (dragInfo_type s)
        (cx - pt_x (lastMousePos s)) (cy - pt_y (lastMousePos s)) (crop s)) < 20 \<longrightarrow>
      crop (handleMouseMove_crop cx cy s) = crop s)"
proof -
  have one: "crop (crop_step s e) = crop s \<or>
      20 \<le> rect_width (crop (crop_step s e)) \<and> 20 \<le> rect_height (crop (crop_step s e))"
    using crop_step_crop [of s e] by blast
  have run: "20 \<le> rect_width (crop (crop_run s es)) \<and> 20 \<le> rect_height (crop (crop_run s es))"
    if "20 \<le> rect_width (crop s) \<and> 20 \<le> rect_height (crop s)"
    using that
    by (rule crop_run_induct [where P = "\<lambda>r. 20 \<le> rect_width r \<and> 20 \<le> rect_height r"]) simp
  have discard: "crop (handleMouseMove_crop cx cy s) = crop s"
    if "rect_width (candidate (aspectRatioValue s) (imageSize s) (dragInfo_type s)
          (cx - pt_x (lastMousePos s)) (cy - pt_y (lastMousePos s)) (crop s)) < 20 \<or>
        rect_height (candidate (aspectRatioValue s) (imageSize s) (dragInfo_type s)
          (cx - pt_x (lastMousePos s)) (cy - pt_y (lastMousePos s)) (crop s)) < 20"
    using that by (simp add: handleMouseMove_crop_def nextCrop_def Let_def)
  from one run discard show ?thesis by blast
qed

lemma squeezed_candidate:
  "candidate 1 \<lparr> size_width = 500, size_height = 250, size_left = 0, size_top = 125 \<rparr>
     (Some H_e) (-190) 0 \<lparr> rect_x = 150, rect_y = 150, rect_width = 200, rect_height = 200 \<rparr>
   = \<lparr> rect_x = 150, rect_y = 150, rect_width = 10, rect_height = 10 \<rparr>"
  by (simp add: candidate_def applyEdges_def maintainAspect_def anchorCorner_def moveRect_def
      clampToImage_def includes_char_simps startsWith_simps Let_def)

theorem minimum_size_enforced_witness:
  "rect_width (candidate (aspectRatioValue squeezing) (imageSize squeezing)
      (dragInfo_type squeezing) (-190 - pt_x (lastMousePos squeezing))
      (0 - pt_y (lastMousePos squeezing)) (crop squeezing)) < 20 \<and>
   crop (handleMouseMove_crop (-190) 0 squeezing) =
     \<lparr> rect_x = 150, rect_y = 150, rect_width = 200, rect_height = 200 \<rparr> \<and>
   20 \<le> rect_width (crop (crop_run squeezing [PointerMove (-190) 0, PointerMove 50 0, PointerUp]))"
proof -
  have sq: "squeezing = loaded\<lparr> dragInfo_active := True, dragInfo_type := Some H_e \<rparr>"
    by (simp add: squeezing_def handleMouseDown_crop_def loaded_eval)
  have c: "rect_width (candidate (aspectRatioValue squeezing) (imageSize squeezing)
      (dragInfo_type squeezing) (-190 - pt_x (lastMousePos squeezing))
      (0 - pt_y (lastMousePos squeezing)) (crop squeezing)) < 20"
    by (simp add: sq loaded_eval squeezed_candidate)
  have k: "crop squeezing = \<lparr> rect_x = 150, rect_y = 150, rect_width = 200, rect_height = 200 \<rparr>"
    by (simp add: sq loaded_eval)
  from minimum_size_enforced [of squeezing "PointerUp"
      "[PointerMove (-190) 0, PointerMove 50 0, PointerUp]" "-190" 0] c k
  show ?thesis by simp
qed

subsection \<open>Fitted box and initial rectangle\<close>

text \<open>
  C6. \<open>onImageLoad\<close> gives the image the full container width when its aspect exceeds
  the container's and the full height otherwise, derives the other side from the image
  aspect and centres it. \<open>initCrop\<close> takes 0.8 of the fitted width when
  \<open>aspectRatioValue\<close> exceeds the fitted aspect and 0.8 of the fitted height otherwise,
  derives the other side from \<open>aspectRatioValue\<close> and centres the rectangle in the
  fitted box. A 1000 by 500 image in a 500 by 500 container at ratio 1 is fitted to
  width 500, height 250, left 0, top 125, and the initial rectangle is 200 by 200 at
  (150, 150).
\<close>

theorem fitted_box_and_initial_crop:
  "(clientHeight c \<noteq> 0 \<and> naturalWidth i \<noteq> 0 \<and> naturalHeight i \<noteq> 0 \<longrightarrow>
      (naturalWidth i / naturalHeight i > clientWidth c / clientHeight c \<longrightarrow>
         size_width (fittedBox c i) = clientWidth c \<and>
         size_height (fittedBox c i) = clientWidth c / (naturalWidth i / naturalHeight i) \<and>
         size_left (fittedBox c i) = 0 \<and>
         size_top (fittedBox c i) = (clientHeight c - size_height (fittedBox c i)) / 2) \<and>
      (\<not> naturalWidth i / naturalHeight i > clientWidth c / clientHeight c \<longrightarrow>
         size_height (fittedBox c i) = clientHeight c \<and>
         size_width (fittedBox c i) = clientHeight c * (naturalWidth i / naturalHeight i) \<and>
         size_top (fittedBox c i) = 0 \<and>
         size_left (fittedBox c i) = (clientWidth c - size_width (fittedBox c i)) / 2)) \<and>
   (size_width (imageSize s) \<noteq> 0 \<and> size_height (imageSize s) \<noteq> 0 \<and>
    aspectRatioValue s \<noteq> 0 \<longrightarrow>
      (aspectRatioValue s > size_width (imageSize s) / size_height (imageSize s) \<longrightarrow>
         rect_width (crop (initCrop s)) = 0.8 * size_width (imageSize s) \<and>
         rect_height (crop (initCrop s)) = rect_width (crop (initCrop s)) / aspectRatioValue s) \<and>
      (\<not> aspectRatioValue s > size_width (imageSize s) / size_height (imageSize s) \<longrightarrow>
         rect_height (crop (initCrop s)) = 0.8 * size_height (imageSize s) \<and>
         rect_width (crop (initCrop s)) = rect_height (crop (initCrop s)) * aspectRatioValue s) \<and>
      rect_x (crop (initCrop s)) =
        size_left (imageSize s) + (size_width (imageSize s) - rect_width (crop (initCrop s))) / 2 \<and>
      rect_y (crop (initCrop s)) =
        size_top (imageSize s) + (size_height (imageSize s) - rect_height (crop (initCrop s))) / 2) \<and>
   fittedBox \<lparr> clientWidth = 500, clientHeight = 500 \<rparr>
             \<lparr> naturalWidth = 1000, naturalHeight = 500 \<rparr>
     = \<lparr> size_width = 500, size_height = 250, size_left = 0, size_top = 125 \<rparr> \<and>
   crop (onImageLoad (Some \<lparr> clientWidth = 500, clientHeight = 500 \<rparr>)
           (Some \<lparr> naturalWidth = 1000, naturalHeight = 500 \<rparr>) (mountCropper 1))
     = \<lparr> rect_x = 150, rect_y = 150, rect_width = 200, rect_height = 200 \<rparr>"
proof -
  have wide: "size_width (fittedBox c i) = clientWidth c \<and>
      size_height (fittedBox c i) = clientWidth c / (naturalWidth i / naturalHeight i) \<and>
      size_left (fittedBox c i) = 0 \<and>
      size_top (fittedBox c i) = (clientHeight c - size_height (fittedBox c i)) / 2"
    if "naturalWidth i / naturalHeight i > clientWidth c / clientHeight c"
    using that by (simp add: fittedBox_def Let_def)
  have tall: "size_height (fittedBox c i) = clientHeight c \<and>
      size_width (fittedBox c i) = clientHeight c * (naturalWidth i / naturalHeight i) \<and>
      size_top (fittedBox c i) = 0 \<and>
      size_left (fittedBox c i) = (clientWidth c - size_width (fittedBox c i)) / 2"
    if "\<not> naturalWidth i / naturalHeight i > clientWidth c / clientHeight c"
    using that by (simp add: fittedBox_def Let_def)
  have byWidth: "rect_width (crop (initCrop s)) = 0.8 * size_width (imageSize s) \<and>
         rect_height (crop (initCrop s)) = rect_width (crop (initCrop s)) / aspectRatioValue s"
    if "size_width (imageSize s) \<noteq> 0 \<and> size_height (imageSize s) \<noteq> 0"
      "aspectRatioValue s > size_width (imageSize s) / size_height (imageSize s)"
    using that by (simp add: initCrop_def Let_def)
  have byHeight: "rect_height (crop (initCrop s)) = 0.8 * size_height (imageSize s) \<and>
         rect_width (crop (initCrop s)) = rect_height (crop (initCrop s)) * aspectRatioValue s"
    if "size_width (imageSize s) \<noteq> 0 \<and> size_height (imageSize s) \<noteq> 0"
      "\<not> aspectRatioValue s > size_width (imageSize s) / size_height (imageSize s)"
    using that by (simp add: initCrop_def Let_def)
  have centred: "rect_x (crop (initCrop s)) =
        size_left (imageSize s) + (size_width (imageSize s) - rect_width (crop (initCrop s))) / 2 \<and>
      rect_y (crop (initCrop s)) =
        size_top (imageSize s) + (size_height (imageSize s) - rect_height (crop (initCrop s))) / 2"
    if "size_width (imageSize s) \<noteq> 0 \<and> size_height (imageSize s) \<noteq> 0"
    using that initCrop_centred [of s] by simp
  have box: "fittedBox \<lparr> clientWidth = 500, clientHeight = 500 \<rparr>
             \<lparr> naturalWidth = 1000, naturalHeight = 500 \<rparr>
     = \<lparr> size_width = 500, size_height = 250, size_left = 0, size_top = 125 \<rparr>"
    by (simp add: fittedBox_def Let_def)
  have rect: "crop (onImageLoad (Some \<lparr> clientWidth = 500, clientHeight = 500 \<rparr>)
           (Some \<lparr> naturalWidth = 1000, naturalHeight = 500 \<rparr>) (mountCropper 1))
     = \<lparr> rect_x = 150, rect_y = 150, rect_width = 200, rect_height = 200 \<rparr>"
    using loaded_eval by (simp add: loaded_def)
  from wide tall byWidth byHeight centred box rect show ?thesis by blast
qed

theorem fitted_box_and_initial_crop_witness:
  "clientHeight \<lparr> clientWidth = 600, clientHeight = 600 \<rparr> \<noteq> 0 \<and>
   naturalWidth \<lparr> naturalWidth = 100, naturalHeight = 3000 \<rparr> \<noteq> 0 \<and>
   naturalHeight \<lparr> naturalWidth = 100, naturalHeight = 3000 \<rparr> \<noteq> 0 \<and>
   aspectRatioValue strip \<noteq> 0 \<and>
   \<not> naturalWidth \<lparr> naturalWidth = 100, naturalHeight = 3000 \<rparr> /
       naturalHeight \<lparr> naturalWidth = 100, naturalHeight = 3000 \<rparr>
     > clientWidth \<lparr> clientWidth = 600, clientHeight = 600 \<rparr> /
       clientHeight \<lparr> clientWidth = 600, clientHeight = 600 \<rparr> \<and>
   size_width (imageSize strip) \<noteq> 0 \<and> size_height (imageSize strip) \<noteq> 0 \<and>
   aspectRatioValue strip > size_width (imageSize strip) / size_height (imageSize strip) \<and>
   size_height (fittedBox \<lparr> clientWidth = 600, clientHeight = 600 \<rparr>
                  \<lparr> naturalWidth = 100, naturalHeight = 3000 \<rparr>) = 600 \<and>
   size_width (fittedBox \<lparr> clientWidth = 600, clientHeight = 600 \<rparr>
                  \<lparr> naturalWidth = 100, naturalHeight = 3000 \<rparr>) = 20 \<and>
   rect_width (crop (initCrop strip)) = 16 \<and>
   rect_height (crop (initCrop strip)) = 16 \<and>
   rect_x (crop (initCrop strip)) = 292 \<and>
   rect_y (crop (initCrop strip)) = 292"
proof -
  have b: "aspectRatioValue strip = 1" "size_width (imageSize strip) = 20"
    "size_height (imageSize strip) = 600" "size_left (imageSize strip) = 290"
    "size_top (imageSize strip) = 0"
    by (simp_all add: strip_eval)
  from fitted_box_and_initial_crop [where i = "\<lparr> naturalWidth = 100, naturalHeight = 3000 \<rparr>"
      and c = "\<lparr> clientWidth = 600, clientHeight = 600 \<rparr>" and s = strip]
  show ?thesis by (simp add: b)
qed

subsection \<open>Saving\<close>






text \<open>
  While an edge handle is still held the same call asks for a canvas two display pixels
  narrower than the source rectangle.
\<close>

lemma save_during_edge_drag_trims:
  "handleSave (Some \<lparr> naturalWidth = 1000, naturalHeight = 500 \<rparr>) True
     (crop_run loaded [HandleDown H_e 0 0]) =
     Some \<lparr> canvas_width = 396, canvas_height = 400, source_x = 300, source_y = 50,
            source_width = 400, source_height = 400, dest_x = 0, dest_y = 0,
            dest_width = 396, dest_height = 400 \<rparr>"
  by (simp add: crop_run_def handleMouseDown_crop_def handleSave_def setCanvasSize_def
      toUnsignedLong_def loaded_eval Let_def)

subsection \<open>The move handle\<close>

text \<open>
  The string \<open>move\<close> contains the letter \<open>e\<close>, so the first \<open>includes\<close> test holds
  for the move handle as it does for the east handles: a move with a horizontal
  component changes the width by \<open>dx\<close> before the rectangle is shifted.
\<close>

lemma move_handle_grows_width:
  "nextCrop 2 \<lparr> size_width = 1000, size_height = 1000, size_left = 0, size_top = 0 \<rparr>
     (Some H_move) 50 0 \<lparr> rect_x = 100, rect_y = 100, rect_width = 200, rect_height = 100 \<rparr>
   = \<lparr> rect_x = 150, rect_y = 100, rect_width = 250, rect_height = 125 \<rparr>"
  by (simp add: nextCrop_def candidate_def applyEdges_def maintainAspect_def anchorCorner_def
      moveRect_def clampToImage_def includes_char_simps startsWith_simps Let_def)

lemma move_candidate_loaded:
  "candidate 1 \<lparr> size_width = 500, size_height = 250, size_left = 0, size_top = 125 \<rparr>
     (Some H_move) 0 50 \<lparr> rect_x = 150, rect_y = 150, rect_width = 200, rect_height = 200 \<rparr>
   = \<lparr> rect_x = 150, rect_y = 200, rect_width = 175, rect_height = 175 \<rparr>"
  by (simp add: candidate_def applyEdges_def maintainAspect_def anchorCorner_def moveRect_def
      clampToImage_def includes_char_simps startsWith_simps Let_def)

text \<open>
  C9, as stated, at a concrete input. The loaded 200 by 200 rectangle at (150, 150) in
  the box reaching down to 375 is moved straight down by 50. The bottom clamp cuts the
  height to 175 and the width follows: the committed rectangle is not the size it was.
\<close>

theorem move_past_bottom_edge_resizes:
  "\<not> (rect_width (crop (crop_run loaded [HandleDown H_move 0 0, PointerMove 0 50]))
        = rect_width (crop loaded) \<and>
      rect_height (crop (crop_run loaded [HandleDown H_move 0 0, PointerMove 0 50]))
        = rect_height (crop loaded))"
  by (simp add: crop_run_def handleMouseDown_crop_def handleMouseMove_crop_def
      nextCrop_def move_candidate_loaded loaded_eval Let_def)

lemma move_vertical_shifted:
  assumes "a \<noteq> 0" "rect_width p = rect_height p * a"
  shows "moveRect (Some H_move) 0 dy
      (anchorCorner (Some H_move) p
        (maintainAspect a (Some H_move) (applyEdges (Some H_move) 0 dy p)))
      = p\<lparr> rect_y := rect_y p + dy \<rparr>"
proof -
  have h: "rect_height p * a / a = rect_height p"
    using assms(1) by simp
  show ?thesis
    using assms(2)
    by (simp add: applyEdges_def maintainAspect_def anchorCorner_def moveRect_def
        includes_char_simps startsWith_simps Let_def h)
qed

lemma move_vertical_candidate:
  assumes "a \<noteq> 0" "rect_width p = rect_height p * a"
    and "size_left img \<le> rect_x p" "rect_x p + rect_width p \<le> size_left img + size_width img"
  shows "candidate a img (Some H_move) 0 dy p =
     (if max (size_top img) (rect_y p + dy) + rect_height p \<le> size_top img + size_height img
      then p\<lparr> rect_y := max (size_top img) (rect_y p + dy) \<rparr>
      else p\<lparr> rect_y := max (size_top img) (rect_y p + dy),
              rect_height := size_top img + size_height img - max (size_top img) (rect_y p + dy),
              rect_width :=
                (size_top img + size_height img - max (size_top img) (rect_y p + dy)) * a \<rparr>)"
proof -
  have x: "max (size_left img) (rect_x p) = rect_x p"
    using assms(3) by simp
  show ?thesis
    unfolding candidate_def move_vertical_shifted [OF assms(1,2)]
    using assms(2,4) by (simp add: clampToImage_def Let_def x not_less [symmetric])
qed

text \<open>
  C9, amended. Take a move with no horizontal component, of a rectangle that has the
  configured ratio and lies between the left and right edges of the fitted box, and let
  the moved top be \<open>max fittedTop (y + dy)\<close>. If the moved rectangle does not reach
  below the bottom edge of the box, width, height and x are kept, and y becomes the moved
  top when the rectangle is at least 20 by 20. If it does reach below, the candidate is
  not the old size: its height is cut to what is left above the bottom edge and its
  width follows from the ratio.
\<close>

theorem move_vertical_keeps_size:
  assumes "a \<noteq> 0" "rect_width p = rect_height p * a"
    and "size_left img \<le> rect_x p" "rect_x p + rect_width p \<le> size_left img + size_width img"
  shows "(max (size_top img) (rect_y p + dy) + rect_height p \<le> size_top img + size_height img \<longrightarrow>
            rect_width (nextCrop a img (Some H_move) 0 dy p) = rect_width p \<and>
            rect_height (nextCrop a img (Some H_move) 0 dy p) = rect_height p \<and>
            rect_x (nextCrop a img (Some H_move) 0 dy p) = rect_x p \<and>
            (20 \<le> rect_width p \<and> 20 \<le> rect_height p \<longrightarrow>
               rect_y (nextCrop a img (Some H_move) 0 dy p) = max (size_top img) (rect_y p + dy))) \<and>
         (\<not> max (size_top img) (rect_y p + dy) + rect_height p \<le> size_top img + size_height img \<longrightarrow>
            rect_height (candidate a img (Some H_move) 0 dy p) =
              size_top img + size_height img - max (size_top img) (rect_y p + dy) \<and>
            rect_width (candidate a img (Some H_move) 0 dy p) =
              (size_top img + size_height img - max (size_top img) (rect_y p + dy)) * a \<and>
            rect_height (candidate a img (Some H_move) 0 dy p) < rect_height p)"
proof -
  note c = move_vertical_candidate [OF assms, of dy]
  have keep: "rect_width (nextCrop a img (Some H_move) 0 dy p) = rect_width p \<and>
            rect_height (nextCrop a img (Some H_move) 0 dy p) = rect_height p \<and>
            rect_x (nextCrop a img (Some H_move) 0 dy p) = rect_x p \<and>
            (20 \<le> rect_width p \<and> 20 \<le> rect_height p \<longrightarrow>
               rect_y (nextCrop a img (Some H_move) 0 dy p) = max (size_top img) (rect_y p + dy))"
    if "max (size_top img) (rect_y p + dy) + rect_height p \<le> size_top img + size_height img"
    using that by (simp add: nextCrop_def Let_def c)
  have cut: "rect_height (candidate a img (Some H_move) 0 dy p) =
              size_top img + size_height img - max (size_top img) (rect_y p + dy) \<and>
            rect_width (candidate a img (Some H_move) 0 dy p) =
              (size_top img + size_height img - max (size_top img) (rect_y p + dy)) * a \<and>
            rect_height (candidate a img (Some H_move) 0 dy p) < rect_height p"
    if "\<not> max (size_top img) (rect_y p + dy) + rect_height p \<le> size_top img + size_height img"
    using that by (simp add: c)
  from keep cut show ?thesis by blast
qed

theorem move_vertical_keeps_size_witness:
  "(1::real) \<noteq> 0 \<and> rect_width (crop loaded) = rect_height (crop loaded) * 1 \<and>
   size_left (imageSize loaded) \<le> rect_x (crop loaded) \<and>
   rect_x (crop loaded) + rect_width (crop loaded)
     \<le> size_left (imageSize loaded) + size_width (imageSize loaded) \<and>
   max (size_top (imageSize loaded)) (rect_y (crop loaded) + 20) + rect_height (crop loaded)
     \<le> size_top (imageSize loaded) + size_height (imageSize loaded) \<and>
   nextCrop 1 (imageSize loaded) (Some H_move) 0 20 (crop loaded) =
     \<lparr> rect_x = 150, rect_y = 170, rect_width = 200, rect_height = 200 \<rparr> \<and>
   \<not> max (size_top (imageSize loaded)) (rect_y (crop loaded) + 50) + rect_height (crop loaded)
     \<le> size_top (imageSize loaded) + size_height (imageSize loaded) \<and>
   rect_height (candidate 1 (imageSize loaded) (Some H_move) 0 50 (crop loaded)) = 175 \<and>
   rect_width (candidate 1 (imageSize loaded) (Some H_move) 0 50 (crop loaded)) = 175"
proof -
  have h: "(1::real) \<noteq> 0" "rect_width (crop loaded) = rect_height (crop loaded) * 1"
    "size_left (imageSize loaded) \<le> rect_x (crop loaded)"
    "rect_x (crop loaded) + rect_width (crop loaded)
       \<le> size_left (imageSize loaded) + size_width (imageSize loaded)"
    by (simp_all add: loaded_eval)
  have k: "crop loaded = \<lparr> rect_x = 150, rect_y = 150, rect_width = 200, rect_height = 200 \<rparr>"
    "size_top (imageSize loaded) = 125" "size_height (imageSize loaded) = 250"
    by (simp_all add: loaded_eval)
  have "nextCrop 1 (imageSize loaded) (Some H_move) 0 20 (crop loaded) =
      \<lparr> rect_x = rect_x (nextCrop 1 (imageSize loaded) (Some H_move) 0 20 (crop loaded)),
        rect_y = rect_y (nextCrop 1 (imageSize loaded) (Some H_move) 0 20 (crop loaded)),
        rect_width = rect_width (nextCrop 1 (imageSize loaded) (Some H_move) 0 20 (crop loaded)),
        rect_height = rect_height (nextCrop 1 (imageSize loaded) (Some H_move) 0 20 (crop loaded)) \<rparr>"
    by simp
  also have "\<dots> = \<lparr> rect_x = 150, rect_y = 170, rect_width = 200, rect_height = 200 \<rparr>"
    using move_vertical_keeps_size [OF h, of 20] by (simp add: k)
  finally have moved: "nextCrop 1 (imageSize loaded) (Some H_move) 0 20 (crop loaded) =
     \<lparr> rect_x = 150, rect_y = 170, rect_width = 200, rect_height = 200 \<rparr>" .
  from move_vertical_keeps_size [OF h, of 50] moved h show ?thesis by (simp add: k)
qed

end
